theory Spec2Isabelle
  imports Complex_Main
begin

section \<open>The replay engine of DrwRendererBase.ts\<close>

text \<open>
  The theory embeds the abstract class \<^verbatim>\<open>DrwRendererBase\<close> of
  \<^verbatim>\<open>src/renderer/DrwRendererBase.ts\<close>.

  \<^item> Values of TypeScript type \<^verbatim>\<open>number\<close> that are coordinates, sizes or ratios are
    elements of a type variable \<open>'n\<close>; the JavaScript operators \<^verbatim>\<open>*\<close> and \<^verbatim>\<open>/\<close> on them
    are the operations of the syntactic classes \<open>times\<close> and \<open>inverse\<close>, about which
    nothing is assumed. Every theorem therefore holds for IEEE doubles (with NaN and with
    the value \<^verbatim>\<open>undefined\<close> of a field that was never assigned) as well as for the reals.
  \<^item> Command indices and layer indices are \<open>int\<close>.
  \<^item> The methods the class declares \<^verbatim>\<open>abstract\<close> (the rendering backend) are modelled by
    the call they receive: each call appends one \<open>Effect\<close> to the field \<open>effects\<close> of the
    state and changes nothing else. The completion callback and the host's
    \<^verbatim>\<open>requestAnimationFrame\<close> are handled the same way.
  \<^item> A property access on \<^verbatim>\<open>undefined\<close> throws a \<^verbatim>\<open>TypeError\<close>; a function in which
    that can happen returns an \<open>option\<close>, and \<open>None\<close> is the throw.
\<close>

subsection \<open>Data of the parser (\<^verbatim>\<open>../parser\<close>)\<close>

text \<open>
  The switch of \<^verbatim>\<open>handleCommand\<close> names four members of \<^verbatim>\<open>CommandType\<close> and has no
  \<^verbatim>\<open>default\<close>; \<open>TYPE_OTHER k\<close> stands for every value of \<^verbatim>\<open>cmd.type\<close> that is none of the
  four. The same holds for \<^verbatim>\<open>LayerAction\<close> and the inner switch.
\<close>

datatype CommandType =
  TYPE_DRAW | TYPE_DRAWEND | TYPE_COLORCHANGE | TYPE_SIZECHANGE | TYPE_OTHER nat

datatype LayerAction =
  LAYERACTION_SET | LAYERACTION_NEWPOS | LAYERACTION_CLEAR | LAYERACTION_COPY
  | LAYERACTION_OTHER nat

text \<open>Members of the enums \<^verbatim>\<open>BrushControl\<close> and \<^verbatim>\<open>BrushType\<close> are only copied.\<close>

type_synonym BrushControl = nat
type_synonym BrushType = nat

text \<open>
  A command as \<^verbatim>\<open>handleCommand\<close> reads it. The fields \<open>layer\<close> and \<open>color\<close> are
  compared with \<^verbatim>\<open>null\<close>, which is \<open>None\<close>. The colour type is the type variable \<open>'c\<close>.
\<close>

record ('n, 'c) Command =
  type :: CommandType
  x :: 'n
  y :: 'n
  pressure :: 'n
  layer :: "int option"
  layerAction :: LayerAction
  color :: "'c option"
  flipX :: bool
  flipY :: bool
  user :: int
  size :: 'n
  brushControl :: BrushControl
  brushType :: BrushType
  opacity :: 'n

record 'n DrwHeader =
  aspectRatio :: 'n

text \<open>
  \<^verbatim>\<open>DrwParser\<close>, as far as the renderer uses it: \<^verbatim>\<open>drw.header\<close>, \<^verbatim>\<open>drw.numCommands\<close> and
  \<^verbatim>\<open>drw.getCommand(i)\<close>.
\<close>

record ('n, 'c) DrwParser =
  header :: "'n DrwHeader"
  numCommands :: int
  getCommand :: "int \<Rightarrow> ('n, 'c) Command"

subsection \<open>Tool state and user state (\<^verbatim>\<open>./State\<close>)\<close>

text \<open>
  Modelled from the spec: the class \<^verbatim>\<open>ToolState\<close> of \<^verbatim>\<open>State.ts\<close>, which is not among the
  sources. The fields are those of section 3 of the specification, and they are the ones
  \<^verbatim>\<open>handleCommand\<close> and \<^verbatim>\<open>setLayer\<close> assign.
\<close>

record ('n, 'c) ToolState =
  layer :: int
  lastX :: 'n
  lastY :: 'n
  pressure :: 'n
  isDrawing :: bool
  color :: 'c
  brushRadius :: 'n
  brushControl :: BrushControl
  brushType :: BrushType
  opacity :: 'n
  user :: int

text \<open>
  Modelled from the spec: the pixel buffer of a user (\<^verbatim>\<open>Uint8ClampedArray\<close>), "sized to the
  canvas". The renderer never reads or writes its pixels; the model keeps the two
  dimensions that were handed to the constructor of \<^verbatim>\<open>UserState\<close>.
\<close>

record 'n AlphaBuffer =
  bufferWidth :: 'n
  bufferHeight :: 'n

record ('n, 'c) UserState =
  toolState :: "('n, 'c) ToolState"
  alphaBuffer :: "'n AlphaBuffer"

text \<open>
  Modelled from the spec: the constructor \<^verbatim>\<open>new UserState(width, height)\<close> of
  \<^verbatim>\<open>State.ts\<close>, which is not among the sources. It owns one tool state and one buffer
  sized to the canvas. The tool state it starts with is the parameter \<open>ts0\<close>.
\<close>

definition newUserState ::
  "('n, 'c) ToolState \<Rightarrow> 'n \<Rightarrow> 'n \<Rightarrow> ('n, 'c) UserState" where
  "newUserState ts0 w h =
     \<lparr>toolState = ts0, alphaBuffer = \<lparr>bufferWidth = w, bufferHeight = h\<rparr>\<rparr>"

subsection \<open>The renderer\<close>

text \<open>
  A layer is an opaque handle: the number of the \<^verbatim>\<open>createLayer\<close> call that returned it.
  The array \<^verbatim>\<open>layers\<close> holds \<open>Some\<close> handle, or \<open>None\<close> for the \<^verbatim>\<open>undefined\<close> that
  \<^verbatim>\<open>moveLayer\<close> inserts when its source index is out of range.
\<close>

type_synonym DrwLayer = nat

datatype 'n Effect =
  CreateLayer DrwLayer
  | LayerSetSize DrwLayer 'n 'n
  | Flip bool bool
  | CopyLayer int int
  | ClearLayer int
  | ResetLayer int
  | UpdateBrush
  | BeginStroke 'n 'n 'n
  | StrokeTo 'n 'n 'n
  | FinalizeStroke
  | UpdateCompleteCallback
  | RequestAnimationFrame

record PlaybackState =
  isPlaying :: bool
  commandsPerUpdate :: int
  currCommandIndex :: int
  numCommands :: int

text \<open>
  The object. \<^verbatim>\<open>this.toolState\<close> and \<^verbatim>\<open>this.alphaBuffer\<close> are references to the two
  objects owned by an entry of \<^verbatim>\<open>userStates\<close>; \<^verbatim>\<open>setUser\<close> is the only place that
  assigns them, and an entry of \<^verbatim>\<open>userStates\<close> is never replaced. The model stores, for
  each reference, the key of the entry it points into (\<open>toolStateRef\<close>,
  \<open>alphaBufferRef\<close>): a write through \<^verbatim>\<open>this.toolState\<close> is a write to that entry.

  \<open>effects\<close> is the sequence of calls made so far to the backend, to the completion
  callback and to \<^verbatim>\<open>requestAnimationFrame\<close>; \<open>scheduled\<close> counts the playback-loop
  callbacks handed to \<^verbatim>\<open>requestAnimationFrame\<close> that the host has not run yet.
\<close>

record ('n, 'c) DrwRendererBase =
  width :: 'n
  height :: 'n
  drw :: "('n, 'c) DrwParser"
  layers :: "DrwLayer option list"
  userStates :: "int \<rightharpoonup> ('n, 'c) UserState"
  alphaBufferRef :: int
  toolStateRef :: int
  playbackState :: PlaybackState
  effects :: "'n Effect list"
  scheduled :: nat

subsection \<open>The backend: abstract methods\<close>

definition emit :: "'n Effect \<Rightarrow> ('n, 'c) DrwRendererBase \<Rightarrow> ('n, 'c) DrwRendererBase" where
  "emit e r = r\<lparr>effects := effects r @ [e]\<rparr>"

definition flip :: "bool \<Rightarrow> bool \<Rightarrow> ('n, 'c) DrwRendererBase \<Rightarrow> ('n, 'c) DrwRendererBase" where
  "flip fx fy r = emit (Flip fx fy) r"

definition copyLayer :: "int \<Rightarrow> int \<Rightarrow> ('n, 'c) DrwRendererBase \<Rightarrow> ('n, 'c) DrwRendererBase" where
  "copyLayer srcLayerIndex dstLayerIndex r = emit (CopyLayer srcLayerIndex dstLayerIndex) r"

definition clearLayer :: "int \<Rightarrow> ('n, 'c) DrwRendererBase \<Rightarrow> ('n, 'c) DrwRendererBase" where
  "clearLayer layerIndex r = emit (ClearLayer layerIndex) r"

definition resetLayer :: "int \<Rightarrow> ('n, 'c) DrwRendererBase \<Rightarrow> ('n, 'c) DrwRendererBase" where
  "resetLayer layerIndex r = emit (ResetLayer layerIndex) r"

definition updateBrush :: "('n, 'c) DrwRendererBase \<Rightarrow> ('n, 'c) DrwRendererBase" where
  "updateBrush r = emit UpdateBrush r"

definition beginStroke ::
  "'n \<Rightarrow> 'n \<Rightarrow> 'n \<Rightarrow> ('n, 'c) DrwRendererBase \<Rightarrow> ('n, 'c) DrwRendererBase" where
  "beginStroke px py pr r = emit (BeginStroke px py pr) r"

definition strokeTo ::
  "'n \<Rightarrow> 'n \<Rightarrow> 'n \<Rightarrow> ('n, 'c) DrwRendererBase \<Rightarrow> ('n, 'c) DrwRendererBase" where
  "strokeTo px py pr r = emit (StrokeTo px py pr) r"

definition finalizeStroke :: "('n, 'c) DrwRendererBase \<Rightarrow> ('n, 'c) DrwRendererBase" where
  "finalizeStroke r = emit FinalizeStroke r"

text \<open>\<^verbatim>\<open>playbackState.updateCompleteCallback()\<close>: the callback of the host.\<close>

definition updateCompleteCallback :: "('n, 'c) DrwRendererBase \<Rightarrow> ('n, 'c) DrwRendererBase" where
  "updateCompleteCallback r = emit UpdateCompleteCallback r"

text \<open>\<^verbatim>\<open>requestAnimationFrame(() => this.playbackLoop())\<close>.\<close>

definition requestAnimationFrame :: "('n, 'c) DrwRendererBase \<Rightarrow> ('n, 'c) DrwRendererBase" where
  "requestAnimationFrame r = (emit RequestAnimationFrame r)\<lparr>scheduled := Suc (scheduled r)\<rparr>"

subsection \<open>Users and layers\<close>

text \<open>
  Reading and writing through the reference \<^verbatim>\<open>this.toolState\<close>. Both are \<open>None\<close> (a
  \<^verbatim>\<open>TypeError\<close>) when the reference does not point to a user state.
\<close>

definition readToolState :: "('n, 'c) DrwRendererBase \<Rightarrow> ('n, 'c) ToolState option" where
  "readToolState r = map_option toolState (userStates r (toolStateRef r))"

definition writeToolState ::
  "(('n, 'c) ToolState \<Rightarrow> ('n, 'c) ToolState) \<Rightarrow> ('n, 'c) DrwRendererBase
     \<Rightarrow> ('n, 'c) DrwRendererBase option" where
  "writeToolState f r =
     (case userStates r (toolStateRef r) of
        None \<Rightarrow> None
      | Some us \<Rightarrow>
          Some (r\<lparr>userStates := (userStates r)(toolStateRef r \<mapsto> us\<lparr>toolState := f (toolState us)\<rparr>)\<rparr>))"

definition setUser ::
  "('n, 'c) ToolState \<Rightarrow> int \<Rightarrow> ('n, 'c) DrwRendererBase \<Rightarrow> ('n, 'c) DrwRendererBase" where
  "setUser ts0 userIndex r =
     (let r1 = (if userIndex \<notin> dom (userStates r)
                then r\<lparr>userStates := (userStates r)(userIndex \<mapsto> newUserState ts0 (width r) (height r))\<rparr>
                else r)
      in r1\<lparr>toolStateRef := userIndex, alphaBufferRef := userIndex\<rparr>)"

definition setLayer :: "int \<Rightarrow> ('n, 'c) DrwRendererBase \<Rightarrow> ('n, 'c) DrwRendererBase option" where
  "setLayer layerIndex r = writeToolState (\<lambda>ts. ts\<lparr>ToolState.layer := layerIndex\<rparr>) r"

text \<open>
  \<^verbatim>\<open>Array.prototype.splice(start, ...)\<close> on an array of length \<open>len\<close> starts at
  \<open>max (len + start) 0\<close> for a negative \<open>start\<close> and at \<open>min start len\<close> otherwise.
\<close>

definition spliceStart :: "int \<Rightarrow> nat \<Rightarrow> nat" where
  "spliceStart start len =
     (if start < 0 then nat (max (int len + start) 0) else min (nat start) len)"

text \<open>
  \<^verbatim>\<open>moveLayer\<close>: \<^verbatim>\<open>splice(srcLayerIndex, 1)[0]\<close> removes one element and yields it, or
  removes nothing and yields \<^verbatim>\<open>undefined\<close> when the start is the length of the array;
  \<^verbatim>\<open>splice(dstLayerIndex, 0, srcLayer)\<close> inserts what was yielded.
\<close>

definition moveLayer :: "int \<Rightarrow> int \<Rightarrow> ('n, 'c) DrwRendererBase \<Rightarrow> ('n, 'c) DrwRendererBase" where
  "moveLayer srcLayerIndex dstLayerIndex r =
     (let ls = layers r;
          s = spliceStart srcLayerIndex (length ls);
          srcLayer = (if s < length ls then ls ! s else None);
          ls1 = take s ls @ drop (Suc s) ls;
          d = spliceStart dstLayerIndex (length ls1)
      in r\<lparr>layers := take d ls1 @ [srcLayer] @ drop d ls1\<rparr>)"

text \<open>\<^verbatim>\<open>createLayer\<close>, seen from the constructor: the \<open>k\<close>-th call returns the handle \<open>k\<close>.\<close>

definition createLayer :: "nat \<Rightarrow> ('n, 'c) DrwRendererBase \<Rightarrow> DrwLayer \<times> ('n, 'c) DrwRendererBase" where
  "createLayer k r = (k, emit (CreateLayer k) r)"

subsection \<open>The command dispatcher\<close>

definition setCurrCommandIndex :: "int \<Rightarrow> ('n, 'c) DrwRendererBase \<Rightarrow> ('n, 'c) DrwRendererBase" where
  "setCurrCommandIndex cmdIndex r =
     r\<lparr>playbackState := (playbackState r)\<lparr>currCommandIndex := cmdIndex\<rparr>\<rparr>"

definition handleCommand ::
  "int \<Rightarrow> ('n::{times,inverse}, 'c) DrwRendererBase \<Rightarrow> ('n, 'c) DrwRendererBase option" where
  "handleCommand cmdIndex r =
     (let cmd = getCommand (drw r) cmdIndex in
      Option.bind
        (case type cmd of
           TYPE_DRAW \<Rightarrow>
             (let px = Command.x cmd * width r;
                  py = Command.y cmd * height r
              in case readToolState r of
                   None \<Rightarrow> None
                 | Some ts \<Rightarrow>
                     writeToolState
                       (\<lambda>ts. ts\<lparr>ToolState.pressure := Command.pressure cmd,
                                lastX := px, lastY := py, isDrawing := True\<rparr>)
                       (if \<not> isDrawing ts then beginStroke px py (Command.pressure cmd) r
                        else strokeTo px py (Command.pressure cmd) r))
         | TYPE_DRAWEND \<Rightarrow>
             (case Command.layer cmd of
                None \<Rightarrow> writeToolState (\<lambda>ts. ts\<lparr>isDrawing := False\<rparr>) (finalizeStroke r)
              | Some l \<Rightarrow>
                  (case layerAction cmd of
                     LAYERACTION_SET \<Rightarrow> setLayer l r
                   | LAYERACTION_NEWPOS \<Rightarrow>
                       (case readToolState r of
                          None \<Rightarrow> None
                        | Some ts \<Rightarrow>
                            (let r1 = moveLayer (ToolState.layer ts) l r
                             in case readToolState r1 of
                                  None \<Rightarrow> None
                                | Some ts1 \<Rightarrow> setLayer (ToolState.layer ts1) r1))
                   | LAYERACTION_CLEAR \<Rightarrow> Some (clearLayer l r)
                   | LAYERACTION_COPY \<Rightarrow>
                       (case readToolState r of
                          None \<Rightarrow> None
                        | Some ts \<Rightarrow> Some (copyLayer (ToolState.layer ts) l r))
                   | LAYERACTION_OTHER k \<Rightarrow> Some r))
         | TYPE_COLORCHANGE \<Rightarrow>
             (case Command.color cmd of
                Some c \<Rightarrow>
                  map_option updateBrush (writeToolState (\<lambda>ts. ts\<lparr>ToolState.color := c\<rparr>) r)
              | None \<Rightarrow>
                  writeToolState (\<lambda>ts. ts\<lparr>ToolState.user := Command.user cmd\<rparr>)
                    (if flipX cmd then flip True False r
                     else if flipY cmd then flip False True r
                     else r))
         | TYPE_SIZECHANGE \<Rightarrow>
             map_option updateBrush
               (writeToolState
                  (\<lambda>ts. ts\<lparr>brushRadius := size cmd * width r,
                           ToolState.brushControl := Command.brushControl cmd,
                           ToolState.brushType := Command.brushType cmd,
                           ToolState.opacity := Command.opacity cmd\<rparr>)
                  r)
         | TYPE_OTHER k \<Rightarrow> Some r)
        (\<lambda>r'. Some (setCurrCommandIndex cmdIndex r')))"

subsection \<open>Construction and canvas size\<close>

text \<open>
  The constructor. The field initialisers run first: \<^verbatim>\<open>userStates = {}\<close> and the initial
  \<^verbatim>\<open>playbackState\<close>. \<^verbatim>\<open>width\<close> and \<^verbatim>\<open>height\<close> are declared without a value; \<open>unset\<close> is
  what such a field holds. The two references are unassigned until \<^verbatim>\<open>setUser(0)\<close>; with
  the empty \<open>userStates\<close> their initial key points nowhere. \<^verbatim>\<open>layerProps\<close> is only handed
  to \<^verbatim>\<open>createLayer\<close> and is left out.
\<close>

definition newDrwRendererBase ::
  "'n \<Rightarrow> ('n, 'c) ToolState \<Rightarrow> ('n, 'c) DrwParser \<Rightarrow> ('n, 'c) DrwRendererBase option" where
  "newDrwRendererBase unset ts0 d =
     (let r0 = \<lparr>width = unset, height = unset, drw = d, layers = [],
                userStates = Map.empty, alphaBufferRef = 0, toolStateRef = 0,
                playbackState = \<lparr>isPlaying = False, commandsPerUpdate = 200,
                                  currCommandIndex = - 1, numCommands = 0\<rparr>,
                effects = [], scheduled = 0\<rparr>;
          (l0, r1) = createLayer 0 r0;
          (l1, r2) = createLayer 1 r1;
          (l2, r3) = createLayer 2 r2;
          (l3, r4) = createLayer 3 r3;
          (l4, r5) = createLayer 4 r4;
          r6 = r5\<lparr>layers := [Some l0, Some l1, Some l2, Some l3, Some l4]\<rparr>;
          r7 = setUser ts0 0 r6
      in Option.bind (setLayer 0 r7)
           (\<lambda>r8. Some (r8\<lparr>playbackState :=
                              (playbackState r8)\<lparr>numCommands := DrwParser.numCommands d\<rparr>\<rparr>)))"

text \<open>
  \<^verbatim>\<open>this.layers.forEach(layer => layer.setSize(width, height))\<close>: the call on an
  \<^verbatim>\<open>undefined\<close> element throws, after the elements before it have been resized.
\<close>

fun setSizeEach ::
  "DrwLayer option list \<Rightarrow> 'n \<Rightarrow> 'n \<Rightarrow> ('n, 'c) DrwRendererBase
     \<Rightarrow> ('n, 'c) DrwRendererBase option" where
  "setSizeEach [] w h r = Some r"
| "setSizeEach (None # ls) w h r = None"
| "setSizeEach (Some l # ls) w h r = setSizeEach ls w h (emit (LayerSetSize l w h) r)"

definition setCanvasWidth ::
  "'n::{times,inverse} \<Rightarrow> ('n, 'c) DrwRendererBase \<Rightarrow> ('n, 'c) DrwRendererBase option" where
  "setCanvasWidth w r =
     (let h = w / aspectRatio (header (drw r));
          r1 = r\<lparr>width := w\<rparr>;
          r2 = r1\<lparr>height := h\<rparr>
      in setSizeEach (layers r2) w h r2)"

subsection \<open>Seeking\<close>

text \<open>\<^verbatim>\<open>Math.min(Math.max(0, newCommandIndex), playbackState.numCommands - 1)\<close>.\<close>

definition clampCommandIndex :: "int \<Rightarrow> int \<Rightarrow> int" where
  "clampCommandIndex n newCommandIndex = min (max 0 newCommandIndex) (n - 1)"

text \<open>\<^verbatim>\<open>for (let i = 0; i < this.layers.length; i++) this.resetLayer(i)\<close>, entered at \<open>i\<close>.\<close>

function resetLayersFrom ::
  "nat \<Rightarrow> ('n, 'c) DrwRendererBase \<Rightarrow> ('n, 'c) DrwRendererBase" where
  "resetLayersFrom i r =
     (if i < length (layers r) then resetLayersFrom (Suc i) (resetLayer (int i) r) else r)"
  by pat_completeness auto
termination
  by (relation "measure (\<lambda>(i, r). length (layers r) - i)")
     (auto simp: resetLayer_def emit_def)

declare resetLayersFrom.simps [simp del]

text \<open>
  \<^verbatim>\<open>for (let cmd = startIndex; cmd <= newCommandIndex; cmd++) this.handleCommand(cmd)\<close>,
  entered at \<open>cmd\<close>.
\<close>

function handleCommandsFrom ::
  "int \<Rightarrow> int \<Rightarrow> ('n::{times,inverse}, 'c) DrwRendererBase \<Rightarrow> ('n, 'c) DrwRendererBase option" where
  "handleCommandsFrom cmd newCommandIndex r =
     (if cmd \<le> newCommandIndex
      then (case handleCommand cmd r of
              None \<Rightarrow> None
            | Some r' \<Rightarrow> handleCommandsFrom (cmd + 1) newCommandIndex r')
      else Some r)"
  by pat_completeness auto
termination
  by (relation "measure (\<lambda>(cmd, newCommandIndex, r). nat (newCommandIndex + 1 - cmd))") auto

declare handleCommandsFrom.simps [simp del]

definition seekCommand ::
  "int \<Rightarrow> ('n::{times,inverse}, 'c) DrwRendererBase \<Rightarrow> ('n, 'c) DrwRendererBase option" where
  "seekCommand newCommandIndex0 r =
     (let newCommandIndex =
            clampCommandIndex (numCommands (playbackState r)) newCommandIndex0;
          (startIndex, r1) =
            (if newCommandIndex < currCommandIndex (playbackState r)
             then (0, resetLayersFrom 0 r)
             else (currCommandIndex (playbackState r) + 1, r))
      in map_option updateCompleteCallback
           (handleCommandsFrom startIndex newCommandIndex r1))"

subsection \<open>Playback\<close>

definition play :: "('n, 'c) DrwRendererBase \<Rightarrow> ('n, 'c) DrwRendererBase" where
  "play r = requestAnimationFrame (r\<lparr>playbackState := (playbackState r)\<lparr>isPlaying := True\<rparr>\<rparr>)"

definition pause :: "('n, 'c) DrwRendererBase \<Rightarrow> ('n, 'c) DrwRendererBase" where
  "pause r = r\<lparr>playbackState := (playbackState r)\<lparr>isPlaying := False\<rparr>\<rparr>"

definition playbackLoop ::
  "('n::{times,inverse}, 'c) DrwRendererBase \<Rightarrow> ('n, 'c) DrwRendererBase option" where
  "playbackLoop r =
     (case seekCommand (currCommandIndex (playbackState r)
                          + commandsPerUpdate (playbackState r)) r of
        None \<Rightarrow> None
      | Some r1 \<Rightarrow>
          Some (if isPlaying (playbackState r1)
                   \<and> currCommandIndex (playbackState r1) < numCommands (playbackState r1) - 1
                then requestAnimationFrame r1
                else r1\<lparr>playbackState := (playbackState r1)\<lparr>isPlaying := False\<rparr>\<rparr>))"

text \<open>
  One tick of the playback loop: the host runs one of the callbacks handed to
  \<^verbatim>\<open>requestAnimationFrame\<close>, if there is one. (\<open>play\<close> and \<open>playbackLoop\<close> schedule one
  callback each, so after a single \<open>play\<close> at most one is waiting.)
\<close>

definition tick ::
  "('n::{times,inverse}, 'c) DrwRendererBase \<Rightarrow> ('n, 'c) DrwRendererBase option" where
  "tick r =
     (case scheduled r of
        0 \<Rightarrow> Some r
      | Suc k \<Rightarrow> playbackLoop (r\<lparr>scheduled := k\<rparr>))"

subsection \<open>Replay as a list of command indices\<close>

text \<open>
  The specification speaks of "replaying commands \<open>[a, b]\<close> in order": \<open>replay\<close> applies
  \<open>handleCommand\<close> to each index of a list, from left to right, and stops at a throw.
\<close>

fun replay ::
  "int list \<Rightarrow> ('n::{times,inverse}, 'c) DrwRendererBase \<Rightarrow> ('n, 'c) DrwRendererBase option" where
  "replay [] r = Some r"
| "replay (i # is) r = Option.bind (handleCommand i r) (replay is)"

text \<open>The same for a list of seek targets: \<^verbatim>\<open>seek(t1); seek(t2); ...\<close>.\<close>

fun seekEach ::
  "int list \<Rightarrow> ('n::{times,inverse}, 'c) DrwRendererBase \<Rightarrow> ('n, 'c) DrwRendererBase option" where
  "seekEach [] r = Some r"
| "seekEach (t # ts) r = Option.bind (seekCommand t r) (seekEach ts)"

subsection \<open>Well-formed states\<close>

text \<open>
  \<open>refOk\<close>: \<^verbatim>\<open>this.toolState\<close> points to a user state (true once the constructor has
  run). \<open>cursorOk\<close>: the cursor is in the range \<open>[-1, numCommands - 1]\<close> of section 3.
\<close>

definition refOk :: "('n, 'c) DrwRendererBase \<Rightarrow> bool" where
  "refOk r = (toolStateRef r \<in> dom (userStates r))"

definition cursorOk :: "('n, 'c) DrwRendererBase \<Rightarrow> bool" where
  "cursorOk r =
     (- 1 \<le> currCommandIndex (playbackState r)
      \<and> currCommandIndex (playbackState r) \<le> numCommands (playbackState r) - 1)"

text \<open>The backend calls that \<open>handleCommand\<close> makes.\<close>

fun isCommandEffect :: "'n Effect \<Rightarrow> bool" where
  "isCommandEffect (Flip fx fy) = True"
| "isCommandEffect (CopyLayer s d) = True"
| "isCommandEffect (ClearLayer l) = True"
| "isCommandEffect UpdateBrush = True"
| "isCommandEffect (BeginStroke px py pr) = True"
| "isCommandEffect (StrokeTo px py pr) = True"
| "isCommandEffect FinalizeStroke = True"
| "isCommandEffect e = False"

text \<open>The calls to the backend: every effect but the two that go to the host.\<close>

fun isBackendCall :: "'n Effect \<Rightarrow> bool" where
  "isBackendCall UpdateCompleteCallback = False"
| "isBackendCall RequestAnimationFrame = False"
| "isBackendCall e = True"

text \<open>The effects a call has added to the state \<open>r\<close>, read off the state \<open>r'\<close> after it.\<close>

definition newEffects ::
  "('n, 'c) DrwRendererBase \<Rightarrow> ('n, 'c) DrwRendererBase \<Rightarrow> 'n Effect list" where
  "newEffects r r' = drop (length (effects r)) (effects r')"

text \<open>
  What replaying commands leaves alone: \<open>frame r r'\<close> holds when \<open>r'\<close> differs from \<open>r\<close>
  at most in the layer order, the contents of the user states, the cursor, and by
  backend calls of \<open>handleCommand\<close> appended to the effects.
\<close>

definition frame :: "('n, 'c) DrwRendererBase \<Rightarrow> ('n, 'c) DrwRendererBase \<Rightarrow> bool" where
  "frame r r' =
     (drw r' = drw r \<and> width r' = width r \<and> height r' = height r
      \<and> dom (userStates r') = dom (userStates r)
      \<and> toolStateRef r' = toolStateRef r \<and> alphaBufferRef r' = alphaBufferRef r
      \<and> scheduled r' = scheduled r
      \<and> isPlaying (playbackState r') = isPlaying (playbackState r)
      \<and> commandsPerUpdate (playbackState r') = commandsPerUpdate (playbackState r)
      \<and> numCommands (playbackState r') = numCommands (playbackState r)
      \<and> (\<exists>es. effects r' = effects r @ es \<and> list_all isCommandEffect es))"


subsection \<open>Sample sessions\<close>

text \<open>
  Concrete inputs, with numbers in \<open>real\<close> and colours in \<open>nat\<close>: a tool state as
  \<^verbatim>\<open>new UserState\<close> may deliver it, commands of each kind, and a parser holding a list of
  commands whose header has the aspect ratio 4:3.
\<close>

definition sampleToolState :: "(real, nat) ToolState" where
  "sampleToolState =
     \<lparr>layer = 0, lastX = 0, lastY = 0, pressure = 0, isDrawing = False, color = 0,
      brushRadius = 0, brushControl = 0, brushType = 0, opacity = 1, user = 0\<rparr>"

definition otherCommand :: "(real, nat) Command" where
  "otherCommand =
     \<lparr>type = TYPE_OTHER 0, x = 0, y = 0, pressure = 0, layer = None,
      layerAction = LAYERACTION_OTHER 0, color = None, flipX = False, flipY = False,
      user = 0, size = 0, brushControl = 0, brushType = 0, opacity = 0\<rparr>"

definition drawCommand :: "real \<Rightarrow> real \<Rightarrow> real \<Rightarrow> (real, nat) Command" where
  "drawCommand px py pr =
     otherCommand\<lparr>type := TYPE_DRAW, x := px, y := py, Command.pressure := pr\<rparr>"

definition layerCommand :: "LayerAction \<Rightarrow> int \<Rightarrow> (real, nat) Command" where
  "layerCommand a l =
     otherCommand\<lparr>type := TYPE_DRAWEND, Command.layer := Some l, layerAction := a\<rparr>"

definition flipCommand :: "bool \<Rightarrow> bool \<Rightarrow> int \<Rightarrow> (real, nat) Command" where
  "flipCommand fx fy u =
     otherCommand\<lparr>type := TYPE_COLORCHANGE, flipX := fx, flipY := fy, Command.user := u\<rparr>"

definition colorCommand :: "nat \<Rightarrow> (real, nat) Command" where
  "colorCommand c = otherCommand\<lparr>type := TYPE_COLORCHANGE, Command.color := Some c\<rparr>"

definition sampleDrw :: "(real, nat) Command list \<Rightarrow> (real, nat) DrwParser" where
  "sampleDrw cs =
     \<lparr>header = \<lparr>aspectRatio = 4 / 3\<rparr>,
      numCommands = int (length cs),
      getCommand = (\<lambda>i. if 0 \<le> i \<and> i < int (length cs) then cs ! nat i else otherCommand)\<rparr>"

text \<open>The renderer constructed for a list of commands; its fields were never assigned a size.\<close>

definition sampleRenderer :: "(real, nat) Command list \<Rightarrow> (real, nat) DrwRendererBase option" where
  "sampleRenderer cs = newDrwRendererBase 0 sampleToolState (sampleDrw cs)"

section \<open>Properties\<close>

subsection \<open>What one command and a replay leave unchanged\<close>

lemma frame_refl: "frame r r"
  by (simp add: frame_def)

lemma frame_effects:
  "frame r r' \<Longrightarrow> \<exists>es. effects r' = effects r @ es \<and> list_all isCommandEffect es"
  by (simp add: frame_def)

lemma frame_trans:
  assumes ab: "frame a b" and bc: "frame b c"
  shows "frame a c"
proof -
  from frame_effects [OF ab] obtain e1
    where e1: "effects b = effects a @ e1" "list_all isCommandEffect e1" by auto
  from frame_effects [OF bc] obtain e2
    where e2: "effects c = effects b @ e2" "list_all isCommandEffect e2" by auto
  from e1 e2 have "effects c = effects a @ (e1 @ e2) \<and> list_all isCommandEffect (e1 @ e2)"
    by simp
  then have "\<exists>es. effects c = effects a @ es \<and> list_all isCommandEffect es" ..
  with ab bc show ?thesis
    by (simp add: frame_def)
qed

lemma frame_refOk: "frame r r' \<Longrightarrow> refOk r \<Longrightarrow> refOk r'"
  by (simp add: frame_def refOk_def)

lemma dom_upd_same: "m k = Some v \<Longrightarrow> dom (m(k \<mapsto> w)) = dom m"
  by (auto split: if_splits)

lemma writeToolState_Some:
  "refOk r \<Longrightarrow> \<exists>r'. writeToolState f r = Some r'"
  by (auto simp: refOk_def writeToolState_def)

lemma handleCommand_Some:
  "refOk r \<Longrightarrow> \<exists>r'. handleCommand i r = Some r'"
  unfolding handleCommand_def Let_def
  by (auto simp: refOk_def readToolState_def writeToolState_def setLayer_def
        beginStroke_def strokeTo_def finalizeStroke_def moveLayer_def clearLayer_def copyLayer_def
        flip_def updateBrush_def emit_def Let_def
      split: CommandType.splits option.splits LayerAction.splits)

lemma handleCommand_frame:
  "handleCommand i r = Some r' \<Longrightarrow> frame r r'"
  unfolding handleCommand_def Let_def
  by (auto simp: frame_def readToolState_def writeToolState_def setLayer_def
        beginStroke_def strokeTo_def finalizeStroke_def moveLayer_def clearLayer_def copyLayer_def
        flip_def updateBrush_def emit_def Let_def setCurrCommandIndex_def insert_absorb domI
      split: CommandType.splits option.splits LayerAction.splits if_splits Option.bind_splits)

lemma handleCommand_cursor:
  "handleCommand i r = Some r' \<Longrightarrow> currCommandIndex (playbackState r') = i"
  unfolding handleCommand_def Let_def
  by (auto simp: setCurrCommandIndex_def split: Option.bind_splits)

lemma replay_Some: "refOk r \<Longrightarrow> \<exists>r'. replay is r = Some r'"
proof (induction "is" arbitrary: r)
  case Nil
  show ?case by simp
next
  case (Cons i "is")
  from handleCommand_Some [OF Cons.prems] obtain r1 where h: "handleCommand i r = Some r1" ..
  from handleCommand_frame [OF h] Cons.prems have "refOk r1" by (rule frame_refOk)
  from Cons.IH [OF this] h show ?case by simp
qed

lemma replay_frame: "replay is r = Some r' \<Longrightarrow> frame r r'"
proof (induction "is" arbitrary: r)
  case Nil
  then show ?case by (simp add: frame_refl)
next
  case (Cons i "is")
  then obtain r1 where h: "handleCommand i r = Some r1" and t: "replay is r1 = Some r'"
    by (auto split: Option.bind_splits)
  from handleCommand_frame [OF h] Cons.IH [OF t] show ?case by (rule frame_trans)
qed

lemma replay_cursor:
  "replay is r = Some r' \<Longrightarrow>
     currCommandIndex (playbackState r') =
       (if is = [] then currCommandIndex (playbackState r) else last is)"
proof (induction "is" arbitrary: r)
  case Nil
  then show ?case by simp
next
  case (Cons i "is")
  then obtain r1 where h: "handleCommand i r = Some r1" and t: "replay is r1 = Some r'"
    by (auto split: Option.bind_splits)
  from Cons.IH [OF t] handleCommand_cursor [OF h] show ?case by simp
qed

lemma handleCommandsFrom_replay:
  "handleCommandsFrom a b r = replay [a..b] r"
proof (induction a b r rule: handleCommandsFrom.induct)
  case (1 cmd newCommandIndex r)
  show ?case
  proof (cases "cmd \<le> newCommandIndex")
    case True
    then have u: "[cmd..newCommandIndex] = cmd # [cmd + 1..newCommandIndex]"
      by (simp add: upto_rec1)
    show ?thesis
    proof (cases "handleCommand cmd r")
      case None
      with True u show ?thesis by (simp add: handleCommandsFrom.simps [of cmd])
    next
      case (Some r1)
      with True u "1.IH" [OF True Some] show ?thesis
        by (simp add: handleCommandsFrom.simps [of cmd])
    qed
  next
    case False
    then show ?thesis by (simp add: handleCommandsFrom.simps [of cmd])
  qed
qed

lemma resetLayersFrom_effects:
  "resetLayersFrom i r =
     r\<lparr>effects := effects r @ map (\<lambda>k. ResetLayer (int k)) [i..<length (layers r)]\<rparr>"
proof (induction i r rule: resetLayersFrom.induct)
  case (1 i r)
  show ?case
  proof (cases "i < length (layers r)")
    case True
    have u: "[i..<length (layers r)] = i # [Suc i..<length (layers r)]"
      using True by (rule upt_conv_Cons)
    have "resetLayersFrom i r = resetLayersFrom (Suc i) (resetLayer (int i) r)"
      using True by (subst resetLayersFrom.simps) simp
    also have "\<dots> = (resetLayer (int i) r)\<lparr>effects := effects (resetLayer (int i) r)
         @ map (\<lambda>k. ResetLayer (int k)) [Suc i..<length (layers (resetLayer (int i) r))]\<rparr>"
      using True by (rule "1.IH")
    also have "\<dots> = r\<lparr>effects := effects r
         @ map (\<lambda>k. ResetLayer (int k)) (i # [Suc i..<length (layers r)])\<rparr>"
      by (simp add: resetLayer_def emit_def)
    finally show ?thesis by (simp only: u)
  next
    case False
    have "resetLayersFrom i r = r"
      using False by (subst resetLayersFrom.simps) simp
    with False show ?thesis by simp
  qed
qed

subsection \<open>The seek loop as a replay\<close>

lemma seekCommand_replay:
  "seekCommand t0 r =
     map_option updateCompleteCallback
       (let t = clampCommandIndex (numCommands (playbackState r)) t0 in
        if t < currCommandIndex (playbackState r)
        then replay [0..t]
               (r\<lparr>effects := effects r @ map (\<lambda>k. ResetLayer (int k)) [0..<length (layers r)]\<rparr>)
        else replay [currCommandIndex (playbackState r) + 1..t] r)"
proof (cases "clampCommandIndex (numCommands (playbackState r)) t0 < currCommandIndex (playbackState r)")
  case True
  then show ?thesis
    unfolding seekCommand_def Let_def handleCommandsFrom_replay
    by (simp only: if_True split_conv resetLayersFrom_effects)
next
  case False
  then show ?thesis
    unfolding seekCommand_def Let_def handleCommandsFrom_replay
    by (simp only: if_False split_conv)
qed

lemma seekCommand_Some: 
  assumes "refOk r"
  shows "\<exists>r'. seekCommand t0 r = Some r'"
proof -
  have "refOk (r\<lparr>effects := effects r @ map (\<lambda>k. ResetLayer (int k)) [0..<length (layers r)]\<rparr>)"
    using assms by (simp add: refOk_def)
  from replay_Some [OF this] replay_Some [OF assms] show ?thesis
    unfolding seekCommand_replay Let_def by (simp split: if_splits) 
qed



lemma last_upto: "a \<le> b \<Longrightarrow> last [a..b] = b"
  by (simp add: upto_rec2)

lemma upto_nonempty: "a \<le> b \<Longrightarrow> [a..b] \<noteq> []"
  by simp

lemma seekCommand_cursor:
  assumes c: "cursorOk r" and s: "seekCommand t0 r = Some r'"
  shows "currCommandIndex (playbackState r') =
           clampCommandIndex (numCommands (playbackState r)) t0"
proof -
  let ?t = "clampCommandIndex (numCommands (playbackState r)) t0"
  let ?c = "currCommandIndex (playbackState r)"
  let ?r0 = "r\<lparr>effects := effects r @ map (\<lambda>k. ResetLayer (int k)) [0..<length (layers r)]\<rparr>"
  show ?thesis
  proof (cases "?t < ?c")
    case True
    with s obtain r1 where r1: "replay [0..?t] ?r0 = Some r1" and r': "r' = updateCompleteCallback r1"
      unfolding seekCommand_replay Let_def by auto
    from True c have "0 \<le> ?t"
      by (auto simp: cursorOk_def clampCommandIndex_def min_def max_def split: if_splits)
    then have "[0..?t] \<noteq> []" and "last [0..?t] = ?t"
      by (simp_all add: last_upto)
    with replay_cursor [OF r1] r' show ?thesis
      by (simp add: updateCompleteCallback_def emit_def)
  next
    case False
    with s obtain r1 where r1: "replay [?c + 1..?t] r = Some r1" and r': "r' = updateCompleteCallback r1"
      unfolding seekCommand_replay Let_def by auto
    show ?thesis
    proof (cases "?c + 1 \<le> ?t")
      case True
      then have "[?c + 1..?t] \<noteq> []" and "last [?c + 1..?t] = ?t"
        by (simp_all add: last_upto)
      with replay_cursor [OF r1] r' show ?thesis
        by (simp add: updateCompleteCallback_def emit_def)
    next
      case c2: False
      with False have "?t = ?c" by simp
      moreover from c2 have "[?c + 1..?t] = []" by simp
      ultimately show ?thesis
        using replay_cursor [OF r1] r' by (simp add: updateCompleteCallback_def emit_def)
    qed
  qed
qed

lemma seekCommand_frame:
  assumes s: "seekCommand t0 r = Some r'"
  shows "drw r' = drw r \<and> width r' = width r \<and> height r' = height r
      \<and> dom (userStates r') = dom (userStates r)
      \<and> toolStateRef r' = toolStateRef r \<and> alphaBufferRef r' = alphaBufferRef r
      \<and> scheduled r' = scheduled r
      \<and> isPlaying (playbackState r') = isPlaying (playbackState r)
      \<and> commandsPerUpdate (playbackState r') = commandsPerUpdate (playbackState r)
      \<and> numCommands (playbackState r') = numCommands (playbackState r)"
proof -
  let ?t = "clampCommandIndex (numCommands (playbackState r)) t0"
  let ?c = "currCommandIndex (playbackState r)"
  let ?r0 = "r\<lparr>effects := effects r @ map (\<lambda>k. ResetLayer (int k)) [0..<length (layers r)]\<rparr>"
  from s obtain r1 where r': "r' = updateCompleteCallback r1"
    and r1: "replay [0..?t] ?r0 = Some r1 \<or> replay [?c + 1..?t] r = Some r1"
    unfolding seekCommand_replay Let_def by (auto split: if_splits)
  from r1 have "frame ?r0 r1 \<or> frame r r1"
    using replay_frame by blast
  then show ?thesis
    unfolding r' by (elim disjE) (simp_all add: frame_def updateCompleteCallback_def emit_def)
qed

lemma seekCommand_refOk: "refOk r \<Longrightarrow> seekCommand t0 r = Some r' \<Longrightarrow> refOk r'"
  using seekCommand_frame [of t0 r r'] by (simp add: refOk_def)

lemma seekCommand_cursorOk:
  assumes "cursorOk r" and "seekCommand t0 r = Some r'"
  shows "cursorOk r'"
proof -
  have "numCommands (playbackState r') = numCommands (playbackState r)"
    using seekCommand_frame [OF assms(2)] by simp
  with seekCommand_cursor [OF assms] assms(1) show ?thesis
    by (auto simp: cursorOk_def clampCommandIndex_def)
qed

subsection \<open>The constructed renderer\<close>

lemma newDrwRendererBase_eq:
  "newDrwRendererBase unset ts0 d =
     Some \<lparr>width = unset, height = unset, drw = d,
           layers = [Some 0, Some 1, Some 2, Some 3, Some 4],
           userStates = [0 \<mapsto> newUserState (ts0\<lparr>ToolState.layer := 0\<rparr>) unset unset],
           alphaBufferRef = 0, toolStateRef = 0,
           playbackState = \<lparr>isPlaying = False, commandsPerUpdate = 200,
                             currCommandIndex = - 1, numCommands = DrwParser.numCommands d\<rparr>,
           effects = [CreateLayer 0, CreateLayer 1, CreateLayer 2, CreateLayer 3, CreateLayer 4],
           scheduled = 0\<rparr>"
  by (simp add: newDrwRendererBase_def createLayer_def emit_def setUser_def setLayer_def
        writeToolState_def newUserState_def)

lemma newDrwRendererBase_ok:
  "newDrwRendererBase unset ts0 d = Some r \<Longrightarrow> refOk r"
  unfolding newDrwRendererBase_eq by (auto simp: refOk_def)

lemma newDrwRendererBase_cursorOk:
  "0 \<le> DrwParser.numCommands d \<Longrightarrow> newDrwRendererBase unset ts0 d = Some r \<Longrightarrow> cursorOk r"
  unfolding newDrwRendererBase_eq by (auto simp: cursorOk_def)

subsection \<open>Effects of a seek\<close>

lemma setSizeEach_defined:
  "setSizeEach (map Some ls) w h r =
     Some (r\<lparr>effects := effects r @ map (\<lambda>l. LayerSetSize l w h) ls\<rparr>)"
  by (induction ls arbitrary: r) (simp_all add: emit_def)

lemma count_list_resets:
  "count_list (map (\<lambda>k. ResetLayer (int k)) [0..<n]) (ResetLayer (int i)) = (if i < n then 1 else 0)"
  by (induction n) auto

lemma count_list_command_effects:
  "list_all isCommandEffect es \<Longrightarrow> \<not> isCommandEffect e \<Longrightarrow> count_list es e = 0"
  by (induction es) auto

lemma seekCommand_effects:
  assumes ok: "refOk r"
  shows "\<exists>r' es. seekCommand t0 r = Some r' \<and> list_all isCommandEffect es
     \<and> effects r' = effects r @
          (if clampCommandIndex (numCommands (playbackState r)) t0 < currCommandIndex (playbackState r)
           then map (\<lambda>k. ResetLayer (int k)) [0..<length (layers r)] else [])
          @ es @ [UpdateCompleteCallback]"
proof -
  let ?t = "clampCommandIndex (numCommands (playbackState r)) t0"
  let ?c = "currCommandIndex (playbackState r)"
  let ?rs = "map (\<lambda>k. ResetLayer (int k)) [0..<length (layers r)]"
  let ?r0 = "r\<lparr>effects := effects r @ ?rs\<rparr>"
  show ?thesis
  proof (cases "?t < ?c")
    case True
    have "refOk ?r0" using ok by (simp add: refOk_def)
    from replay_Some [OF this] obtain r1 where r1: "replay [0..?t] ?r0 = Some r1" ..
    from frame_effects [OF replay_frame [OF r1]] obtain es
      where es: "effects r1 = effects ?r0 @ es" "list_all isCommandEffect es" by auto
    from True r1 have "seekCommand t0 r = Some (updateCompleteCallback r1)"
      unfolding seekCommand_replay Let_def by simp
    moreover from True es have "effects (updateCompleteCallback r1) =
      effects r @ (if ?t < ?c then ?rs else []) @ es @ [UpdateCompleteCallback]"
      by (simp add: updateCompleteCallback_def emit_def)
    ultimately show ?thesis using es(2) by blast
  next
    case False
    from replay_Some [OF ok] obtain r1 where r1: "replay [?c + 1..?t] r = Some r1" ..
    from frame_effects [OF replay_frame [OF r1]] obtain es
      where es: "effects r1 = effects r @ es" "list_all isCommandEffect es" by auto
    from False r1 have "seekCommand t0 r = Some (updateCompleteCallback r1)"
      unfolding seekCommand_replay Let_def by simp
    moreover from False es have "effects (updateCompleteCallback r1) =
      effects r @ (if ?t < ?c then ?rs else []) @ es @ [UpdateCompleteCallback]"
      by (simp add: updateCompleteCallback_def emit_def)
    ultimately show ?thesis using es(2) by blast
  qed
qed

subsection \<open>Evaluation on the sample sessions\<close>

lemmas eval_defs = handleCommand_def readToolState_def writeToolState_def setLayer_def
  beginStroke_def strokeTo_def finalizeStroke_def moveLayer_def clearLayer_def copyLayer_def
  flip_def updateBrush_def emit_def setCurrCommandIndex_def spliceStart_def
  sampleRenderer_def newDrwRendererBase_eq sampleDrw_def newUserState_def sampleToolState_def
  otherCommand_def drawCommand_def layerCommand_def flipCommand_def colorCommand_def
  updateCompleteCallback_def clampCommandIndex_def

lemma upto_0_1: "[0..1::int] = [0, 1]" 
  by (simp add: upto_rec1)

lemma sampleRenderer_ok:
  "\<exists>r. sampleRenderer cs = Some r \<and> refOk r \<and> cursorOk r
     \<and> currCommandIndex (playbackState r) = - 1
     \<and> numCommands (playbackState r) = int (length cs)"
  by (simp add: sampleRenderer_def newDrwRendererBase_eq refOk_def cursorOk_def sampleDrw_def)

subsection \<open>Moving a layer inside the stack\<close>


subsection \<open>One frame of playback\<close>

lemma play_props:
  "refOk (play r) = refOk r" "cursorOk (play r) = cursorOk r"
  "scheduled (play r) = Suc (scheduled r)" "isPlaying (playbackState (play r))"
  "numCommands (playbackState (play r)) = numCommands (playbackState r)"
  "commandsPerUpdate (playbackState (play r)) = commandsPerUpdate (playbackState r)"
  "currCommandIndex (playbackState (play r)) = currCommandIndex (playbackState r)"
  by (simp_all add: play_def requestAnimationFrame_def emit_def refOk_def cursorOk_def)

lemma tick_step:
  assumes ok: "refOk r" "cursorOk r" and sch: "scheduled r = Suc k"
  shows "\<exists>r'. tick r = Some r' \<and> refOk r' \<and> cursorOk r'
     \<and> numCommands (playbackState r') = numCommands (playbackState r)
     \<and> commandsPerUpdate (playbackState r') = commandsPerUpdate (playbackState r)
     \<and> currCommandIndex (playbackState r') =
           clampCommandIndex (numCommands (playbackState r))
             (currCommandIndex (playbackState r) + commandsPerUpdate (playbackState r))
     \<and> isPlaying (playbackState r') =
           (isPlaying (playbackState r)
            \<and> currCommandIndex (playbackState r') < numCommands (playbackState r) - 1)
     \<and> scheduled r' = (if isPlaying (playbackState r') then Suc k else k)"
proof -
  define q where "q = r\<lparr>scheduled := k\<rparr>"
  define t where "t = currCommandIndex (playbackState r) + commandsPerUpdate (playbackState r)"
  have q: "refOk q" "cursorOk q" "playbackState q = playbackState r" "scheduled q = k"
    using ok by (simp_all add: q_def refOk_def cursorOk_def)
  from seekCommand_Some [OF q(1), of t] obtain r1 where s: "seekCommand t q = Some r1" ..
  note f = seekCommand_frame [OF s]
  have c: "currCommandIndex (playbackState r1) = clampCommandIndex (numCommands (playbackState r)) t"
    using seekCommand_cursor [OF q(2) s] q(3) by simp
  have ok1: "refOk r1" "cursorOk r1"
    using seekCommand_refOk [OF q(1) s] seekCommand_cursorOk [OF q(2) s] by simp_all
  have p: "playbackLoop q =
      Some (if isPlaying (playbackState r1)
               \<and> currCommandIndex (playbackState r1) < numCommands (playbackState r1) - 1
            then requestAnimationFrame r1
            else r1\<lparr>playbackState := (playbackState r1)\<lparr>isPlaying := False\<rparr>\<rparr>)"
    using s unfolding playbackLoop_def q(3) t_def [symmetric] by simp
  have tk: "tick r = playbackLoop q"
    using sch by (simp add: tick_def q_def)
  show ?thesis
  proof (cases "isPlaying (playbackState r1)
               \<and> currCommandIndex (playbackState r1) < numCommands (playbackState r1) - 1")
    case True
    have "tick r = Some (requestAnimationFrame r1)" unfolding tk p by (simp only: if_P [OF True])
    moreover from True f c ok1 q(3,4)
    have "refOk (requestAnimationFrame r1)" "cursorOk (requestAnimationFrame r1)"
      "numCommands (playbackState (requestAnimationFrame r1)) = numCommands (playbackState r)"
      "commandsPerUpdate (playbackState (requestAnimationFrame r1)) = commandsPerUpdate (playbackState r)"
      "currCommandIndex (playbackState (requestAnimationFrame r1)) =
           clampCommandIndex (numCommands (playbackState r)) t"
      "isPlaying (playbackState (requestAnimationFrame r1)) =
           (isPlaying (playbackState r)
            \<and> currCommandIndex (playbackState (requestAnimationFrame r1)) < numCommands (playbackState r) - 1)"
      "scheduled (requestAnimationFrame r1) =
         (if isPlaying (playbackState (requestAnimationFrame r1)) then Suc k else k)"
      by (simp_all add: requestAnimationFrame_def emit_def refOk_def cursorOk_def)
    ultimately show ?thesis unfolding t_def by blast
  next
    case False
    let ?r' = "r1\<lparr>playbackState := (playbackState r1)\<lparr>isPlaying := False\<rparr>\<rparr>"
    have "tick r = Some ?r'" unfolding tk p by (simp only: if_not_P [OF False])
    moreover from False f c ok1 q(3,4)
    have "refOk ?r'" "cursorOk ?r'"
      "numCommands (playbackState ?r') = numCommands (playbackState r)"
      "commandsPerUpdate (playbackState ?r') = commandsPerUpdate (playbackState r)"
      "currCommandIndex (playbackState ?r') =
           clampCommandIndex (numCommands (playbackState r)) t"
      "isPlaying (playbackState ?r') =
           (isPlaying (playbackState r)
            \<and> currCommandIndex (playbackState ?r') < numCommands (playbackState r) - 1)"
      "scheduled ?r' = (if isPlaying (playbackState ?r') then Suc k else k)"
      by (simp_all add: refOk_def cursorOk_def)
    ultimately show ?thesis unfolding t_def by blast
  qed
qed

subsection \<open>The invariants across the other operations\<close>

lemma setSizeEach_frame:
  "setSizeEach ls w h q = Some q' \<Longrightarrow>
     userStates q' = userStates q \<and> toolStateRef q' = toolStateRef q
     \<and> playbackState q' = playbackState q"
proof (induction ls w h q rule: setSizeEach.induct)
  case (1 w h r)
  then show ?case by simp
next
  case (2 ls w h r)
  then show ?case by simp
next
  case (3 l ls w h r)
  then show ?case by (simp add: emit_def)
qed

lemma setCanvasWidth_ok:
  assumes "setCanvasWidth w r = Some r'"
  shows "refOk r' = refOk r" and "cursorOk r' = cursorOk r"
  using setSizeEach_frame [OF assms [unfolded setCanvasWidth_def Let_def]]
  by (simp_all add: refOk_def cursorOk_def)

lemma pause_ok: "refOk (pause r) = refOk r" "cursorOk (pause r) = cursorOk r"
  by (simp_all add: pause_def refOk_def cursorOk_def)

subsection \<open>Seeking forward in steps\<close>

lemma handleCommand_effects_independent:
  "handleCommand i (r\<lparr>effects := e\<rparr>) =
     map_option (\<lambda>r'. r'\<lparr>effects := e @ newEffects r r'\<rparr>) (handleCommand i r)"
proof -
  let ?c = "getCommand (drw r) i"
  note defs = handleCommand_def newEffects_def readToolState_def writeToolState_def setLayer_def
        beginStroke_def strokeTo_def finalizeStroke_def moveLayer_def clearLayer_def copyLayer_def
        flip_def updateBrush_def emit_def Let_def setCurrCommandIndex_def
  show ?thesis
  proof (cases "type ?c")
    case TYPE_DRAW
    then show ?thesis
      by (cases "userStates r (toolStateRef r)") (simp_all add: defs)
  next
    case TYPE_DRAWEND
    show ?thesis
    proof (cases "Command.layer ?c")
      case None
      with TYPE_DRAWEND show ?thesis
        by (cases "userStates r (toolStateRef r)") (simp_all add: defs)
    next
      case (Some l)
      with TYPE_DRAWEND show ?thesis
        by (cases "userStates r (toolStateRef r)"; cases "layerAction ?c") (simp_all add: defs)
    qed
  next
    case TYPE_COLORCHANGE
    then show ?thesis
      by (cases "userStates r (toolStateRef r)"; cases "Command.color ?c") (simp_all add: defs)
  next
    case TYPE_SIZECHANGE
    then show ?thesis
      by (cases "userStates r (toolStateRef r)") (simp_all add: defs)
  next
    case (TYPE_OTHER k)
    then show ?thesis by (simp add: defs)
  qed
qed

lemma replay_append: "replay (xs @ ys) r = Option.bind (replay xs r) (replay ys)"
  by (induction xs arbitrary: r) (simp_all split: Option.bind_split)

lemma seekEach_append: "seekEach (xs @ ys) r = Option.bind (seekEach xs r) (seekEach ys)"
  by (induction xs arbitrary: r) (simp_all split: Option.bind_split)

lemma upto_Suc: "[0..int (Suc m)] = [0..int m] @ [int m + 1]"
  using upto_rec2 [of 0 "int (Suc m)"] by simp

lemma upto_single: "[a..a] = [a]"
  by (simp add: upto_rec1)

text \<open>
  On a renderer whose cursor is \<open>-1\<close> (nothing replayed yet), seeking to \<open>0, 1, ..., m\<close> one
  after the other and replaying the commands \<open>0, ..., m\<close> give states that agree in every
  field but the effects, and whose effects agree once the callbacks are left out.
\<close>

lemma seekEach_replay:
  assumes ok: "refOk r" and c: "currCommandIndex (playbackState r) = - 1"
    and n: "int m < numCommands (playbackState r)"
  shows "\<exists>rb R. seekEach [0..int m] r = Some rb \<and> replay [0..int m] r = Some R
     \<and> rb\<lparr>effects := []\<rparr> = R\<lparr>effects := []\<rparr>
     \<and> filter isBackendCall (effects rb) = filter isBackendCall (effects R)"
  using n
proof (induction m)
  case 0
  from replay_Some [OF ok] obtain R where R: "replay [0..0] r = Some R" ..
  have t: "clampCommandIndex (numCommands (playbackState r)) 0 = 0"
    using 0 by (simp add: clampCommandIndex_def)
  have "seekCommand 0 r = map_option updateCompleteCallback (replay [0..0] r)"
    unfolding seekCommand_replay Let_def t c by simp
  with R have "seekEach [0..int 0] r = Some (updateCompleteCallback R)"
    by (simp add: upto_single)
  moreover have "(updateCompleteCallback R)\<lparr>effects := []\<rparr> = R\<lparr>effects := []\<rparr>"
    "filter isBackendCall (effects (updateCompleteCallback R)) = filter isBackendCall (effects R)"
    by (simp_all add: updateCompleteCallback_def emit_def)
  ultimately show ?case using R by auto
next
  case (Suc m)
  then have "int m < numCommands (playbackState r)" by simp
  from Suc.IH [OF this] obtain rb R where
    rb: "seekEach [0..int m] r = Some rb" and R: "replay [0..int m] r = Some R"
    and eq: "rb\<lparr>effects := []\<rparr> = R\<lparr>effects := []\<rparr>"
    and ef: "filter isBackendCall (effects rb) = filter isBackendCall (effects R)"
    by blast
  have rbR: "rb = R\<lparr>effects := effects rb\<rparr>"
  proof -
    have "rb = rb\<lparr>effects := []\<rparr>\<lparr>effects := effects rb\<rparr>" by simp
    also have "\<dots> = R\<lparr>effects := []\<rparr>\<lparr>effects := effects rb\<rparr>" unfolding eq ..
    finally show ?thesis by simp
  qed
  have fr: "frame r R" using R by (rule replay_frame)
  have okR: "refOk R" using fr ok by (rule frame_refOk)
  have nR: "numCommands (playbackState R) = numCommands (playbackState r)"
    using fr by (simp add: frame_def)
  have cR: "currCommandIndex (playbackState R) = int m"
    using replay_cursor [OF R] by (simp add: last_upto)
  from handleCommand_Some [OF okR] obtain R' where R': "handleCommand (int m + 1) R = Some R'" ..
  from frame_effects [OF handleCommand_frame [OF R']] obtain es where
    es: "effects R' = effects R @ es" by blast
  have ne: "newEffects R R' = es" by (simp add: newEffects_def es)
  have h: "handleCommand (int m + 1) rb = Some (R'\<lparr>effects := effects rb @ es\<rparr>)"
    by (subst rbR) (simp add: handleCommand_effects_independent R' ne)
  have pb: "playbackState rb = playbackState R"
  proof -
    have "playbackState rb = playbackState (rb\<lparr>effects := []\<rparr>)" by simp
    also have "\<dots> = playbackState R" unfolding eq by simp
    finally show ?thesis .
  qed
  have t: "clampCommandIndex (numCommands (playbackState rb)) (int m + 1) = int m + 1"
    using Suc.prems unfolding pb nR by (simp add: clampCommandIndex_def)
  have "seekCommand (int m + 1) rb =
          map_option updateCompleteCallback (replay [int m + 1..int m + 1] rb)"
    unfolding seekCommand_replay Let_def t unfolding pb cR by simp
  with h have s: "seekCommand (int m + 1) rb =
      Some (updateCompleteCallback (R'\<lparr>effects := effects rb @ es\<rparr>))"
    by (simp add: upto_single)
  let ?rb' = "updateCompleteCallback (R'\<lparr>effects := effects rb @ es\<rparr>)"
  have 1: "seekEach [0..int (Suc m)] r = Some ?rb'"
    unfolding upto_Suc seekEach_append rb using s by simp
  have 2: "replay [0..int (Suc m)] r = Some R'"
    unfolding upto_Suc replay_append R using R' by simp
  have 3: "?rb'\<lparr>effects := []\<rparr> = R'\<lparr>effects := []\<rparr>"
    by (simp add: updateCompleteCallback_def emit_def)
  have 4: "filter isBackendCall (effects ?rb') = filter isBackendCall (effects R')"
    using ef by (simp add: updateCompleteCallback_def emit_def es)
  from 1 2 3 4 show ?case by blast
qed

text \<open>
  On a renderer whose cursor is \<open>-1\<close>, for a valid index \<open>i\<close>, one seek
  to \<open>i\<close> and the seeks to \<open>0, 1, ..., i\<close> in order return states that agree in every
  field but the effects (tool states, layer stack, cursor), and whose backend calls are
  the same sequence; they differ in the number of callbacks.
\<close>

lemma seekEach_fresh_convergence:
  assumes ok: "refOk r" and c: "currCommandIndex (playbackState r) = - 1"
    and i: "0 \<le> i" "i < numCommands (playbackState r)"
  shows "\<exists>ra rb. seekCommand i r = Some ra \<and> seekEach [0..i] r = Some rb
     \<and> rb\<lparr>effects := []\<rparr> = ra\<lparr>effects := []\<rparr>
     \<and> filter isBackendCall (effects rb) = filter isBackendCall (effects ra)"
proof -
  from i(1) obtain m where m: "i = int m" by (metis nonneg_int_cases)
  from seekEach_replay [OF ok c, of m] i(2) obtain rb R where
    rb: "seekEach [0..i] r = Some rb" and R: "replay [0..i] r = Some R"
    and eq: "rb\<lparr>effects := []\<rparr> = R\<lparr>effects := []\<rparr>"
    and ef: "filter isBackendCall (effects rb) = filter isBackendCall (effects R)"
    unfolding m by blast
  have t: "clampCommandIndex (numCommands (playbackState r)) i = i"
    using i by (simp add: clampCommandIndex_def)
  have "\<not> i < - 1" using i(1) by simp
  then have "seekCommand i r = map_option updateCompleteCallback (replay [- 1 + 1..i] r)"
    unfolding seekCommand_replay Let_def t c by (simp only: if_False)
  with R have s: "seekCommand i r = Some (updateCompleteCallback R)" by simp
  have "rb\<lparr>effects := []\<rparr> = (updateCompleteCallback R)\<lparr>effects := []\<rparr>"
    "filter isBackendCall (effects rb) = filter isBackendCall (effects (updateCompleteCallback R))"
    using eq ef by (simp_all add: updateCompleteCallback_def emit_def)
  with s rb show ?thesis by blast
qed

section \<open>The claims\<close>

subsection \<open>Convergence of seeks\<close>

text \<open>
  C1 fails on the code after a backward seek. The session is a \<open>TYPE_DRAW\<close> command at
  \<open>(1/2, 1/2)\<close> followed by a \<open>LAYERACTION_SET\<close> to layer 3, on a canvas of width 800.
  A seek to 0 on the constructed renderer calls \<open>beginStroke\<close> and leaves the active
  layer index at 0. A seek to 1 followed by a seek to 0 ends with the same cursor 0, but
  after the five \<open>resetLayer\<close> calls command 0 reaches the backend as \<open>strokeTo\<close>, since
  \<open>isDrawing\<close> was left set, and the active layer index is 3: the state is not that of
  applying the commands \<open>[0, 0]\<close> to a new renderer. (For seeks that only go forward from
  a new renderer the claim holds: \<open>seekEach_fresh_convergence\<close>.)
\<close>

theorem seekCommand_backward_keeps_tool_state:
  "map_option effects
     (Option.bind
        (Option.bind (sampleRenderer [drawCommand (1 / 2) (1 / 2) 1, layerCommand LAYERACTION_SET 3])
           (setCanvasWidth 800))
        (seekCommand 0))
   = Some [CreateLayer 0, CreateLayer 1, CreateLayer 2, CreateLayer 3, CreateLayer 4,
           LayerSetSize 0 800 600, LayerSetSize 1 800 600, LayerSetSize 2 800 600,
           LayerSetSize 3 800 600, LayerSetSize 4 800 600,
           BeginStroke 400 300 1, UpdateCompleteCallback]
   \<and> map_option ToolState.layer
       (Option.bind
          (Option.bind
             (Option.bind (sampleRenderer [drawCommand (1 / 2) (1 / 2) 1, layerCommand LAYERACTION_SET 3])
                (setCanvasWidth 800))
             (seekCommand 0))
          readToolState)
     = Some 0
   \<and> map_option effects
       (Option.bind
          (Option.bind
             (Option.bind (sampleRenderer [drawCommand (1 / 2) (1 / 2) 1, layerCommand LAYERACTION_SET 3])
                (setCanvasWidth 800))
             (seekCommand 1))
          (seekCommand 0))
     = Some [CreateLayer 0, CreateLayer 1, CreateLayer 2, CreateLayer 3, CreateLayer 4,
             LayerSetSize 0 800 600, LayerSetSize 1 800 600, LayerSetSize 2 800 600,
             LayerSetSize 3 800 600, LayerSetSize 4 800 600,
             BeginStroke 400 300 1, UpdateCompleteCallback,
             ResetLayer 0, ResetLayer 1, ResetLayer 2, ResetLayer 3, ResetLayer 4,
             StrokeTo 400 300 1, UpdateCompleteCallback]
   \<and> map_option ToolState.layer
       (Option.bind
          (Option.bind
             (Option.bind
                (Option.bind (sampleRenderer [drawCommand (1 / 2) (1 / 2) 1, layerCommand LAYERACTION_SET 3])
                   (setCanvasWidth 800))
                (seekCommand 1))
             (seekCommand 0))
          readToolState)
     = Some 3
   \<and> map_option currCommandIndex (map_option playbackState
       (Option.bind
          (Option.bind
             (Option.bind (sampleRenderer [drawCommand (1 / 2) (1 / 2) 1, layerCommand LAYERACTION_SET 3])
                (setCanvasWidth 800))
             (seekCommand 1))
          (seekCommand 0)))
     = Some 0"
proof -
  have u: "[0..0::int] = [0]" "[1..0::int] = []" "[0..<5] = [0, 1, 2, 3, 4]"
    by (simp_all add: upto_rec1 upt_rec)
  show ?thesis
    unfolding seekCommand_replay Let_def
    by (simp add: eval_defs setCanvasWidth_def upto_0_1 u)
qed

subsection \<open>Backward and forward seeks\<close>

text \<open>
  C2. With \<open>t\<close> the clamped target and \<open>c\<close> the cursor: if \<open>t < c\<close>, a seek calls
  \<open>resetLayer\<close> for the indices \<open>0, ..., length layers - 1\<close> in order, then replays the
  commands \<open>[0..t]\<close>, then calls the callback; otherwise it replays the commands
  \<open>[c + 1..t]\<close> and calls the callback. Where the tool-state reference is valid the seek
  returns, and among the effects it adds each \<open>ResetLayer i\<close> with \<open>i\<close> an index of the
  stack occurs exactly once in the first case, and no \<open>ResetLayer\<close> occurs in the second.
\<close>

theorem seekCommand_reset_and_replay:
  "seekCommand t0 r =
     map_option updateCompleteCallback
       (if clampCommandIndex (numCommands (playbackState r)) t0 < currCommandIndex (playbackState r)
        then replay [0..clampCommandIndex (numCommands (playbackState r)) t0]
               (r\<lparr>effects := effects r @ map (\<lambda>k. ResetLayer (int k)) [0..<length (layers r)]\<rparr>)
        else replay [currCommandIndex (playbackState r) + 1..
                     clampCommandIndex (numCommands (playbackState r)) t0] r)
   \<and> (refOk r \<longrightarrow>
        (\<exists>r'. seekCommand t0 r = Some r'
           \<and> (\<forall>k. count_list (newEffects r r') (ResetLayer k) =
                 (if clampCommandIndex (numCommands (playbackState r)) t0
                       < currCommandIndex (playbackState r)
                     \<and> 0 \<le> k \<and> k < int (length (layers r))
                  then 1 else 0))))"
proof (intro conjI impI)
  show "seekCommand t0 r =
     map_option updateCompleteCallback
       (if clampCommandIndex (numCommands (playbackState r)) t0 < currCommandIndex (playbackState r)
        then replay [0..clampCommandIndex (numCommands (playbackState r)) t0]
               (r\<lparr>effects := effects r @ map (\<lambda>k. ResetLayer (int k)) [0..<length (layers r)]\<rparr>)
        else replay [currCommandIndex (playbackState r) + 1..
                     clampCommandIndex (numCommands (playbackState r)) t0] r)"
    unfolding seekCommand_replay Let_def ..
next
  assume ok: "refOk r"
  define b where
    "b = (clampCommandIndex (numCommands (playbackState r)) t0 < currCommandIndex (playbackState r))"
  define rs :: "'a Effect list" where
    "rs = (if b then map (\<lambda>k. ResetLayer (int k)) [0..<length (layers r)] else [])"
  from seekCommand_effects [OF ok, of t0] obtain r' es where
    s: "seekCommand t0 r = Some r'" and c: "list_all isCommandEffect es"
    and e: "effects r' = effects r @ rs @ es @ [UpdateCompleteCallback]"
    unfolding rs_def b_def by blast
  from e have n: "newEffects r r' = rs @ es @ [UpdateCompleteCallback]"
    by (simp add: newEffects_def)
  have "count_list (newEffects r r') (ResetLayer k) =
          (if b \<and> 0 \<le> k \<and> k < int (length (layers r)) then 1 else 0)" for k
  proof -
    have 1: "count_list es (ResetLayer k) = 0"
      using c by (rule count_list_command_effects) simp
    have 2: "count_list rs (ResetLayer k) =
               (if b \<and> 0 \<le> k \<and> k < int (length (layers r)) then 1 else 0)"
    proof (cases "0 \<le> k")
      case True
      then obtain i where k: "k = int i" by (metis nonneg_int_cases)
      show ?thesis unfolding k rs_def by (simp add: count_list_resets)
    next
      case False
      then have "ResetLayer k \<notin> set rs" by (auto simp: rs_def)
      with False show ?thesis by (simp add: count_list_0_iff)
    qed
    from 1 2 show ?thesis unfolding n by simp
  qed
  with s show "\<exists>r'. seekCommand t0 r = Some r'
           \<and> (\<forall>k. count_list (newEffects r r') (ResetLayer k) =
                 (if clampCommandIndex (numCommands (playbackState r)) t0
                       < currCommandIndex (playbackState r)
                     \<and> 0 \<le> k \<and> k < int (length (layers r))
                  then 1 else 0))"
    unfolding b_def by blast
qed

theorem seekCommand_reset_and_replay_witness:
  "\<exists>r r1 r2. sampleRenderer [drawCommand (1 / 2) (1 / 2) 1, layerCommand LAYERACTION_SET 3] = Some r
     \<and> seekCommand 1 r = Some r1
     \<and> refOk r1
     \<and> clampCommandIndex (numCommands (playbackState r1)) 0 < currCommandIndex (playbackState r1)
     \<and> length (layers r1) = 5
     \<and> seekCommand 0 r1 = Some r2
     \<and> seekCommand 0 r1 = map_option updateCompleteCallback (replay [0..0]
           (r1\<lparr>effects := effects r1 @
               [ResetLayer 0, ResetLayer 1, ResetLayer 2, ResetLayer 3, ResetLayer 4]\<rparr>))
     \<and> count_list (newEffects r1 r2) (ResetLayer 0) = 1
     \<and> count_list (newEffects r1 r2) (ResetLayer 4) = 1
     \<and> count_list (newEffects r1 r2) (ResetLayer 5) = 0"
proof -
  from sampleRenderer_ok obtain r where
    r: "sampleRenderer [drawCommand (1 / 2) (1 / 2) 1, layerCommand LAYERACTION_SET 3] = Some r"
    and ok: "refOk r" "cursorOk r" and n: "numCommands (playbackState r) = 2" by fastforce
  from seekCommand_Some [OF ok(1), of 1] obtain r1 where s: "seekCommand 1 r = Some r1" ..
  have ok1: "refOk r1" using ok(1) s by (rule seekCommand_refOk)
  have n1: "numCommands (playbackState r1) = 2"
    using seekCommand_frame [OF s] n by simp
  have c1: "currCommandIndex (playbackState r1) = 1"
    using seekCommand_cursor [OF ok(2) s] n by (simp add: clampCommandIndex_def)
  have "map_option layers (Option.bind
          (sampleRenderer [drawCommand (1 / 2) (1 / 2) 1, layerCommand LAYERACTION_SET 3])
          (seekCommand 1)) = Some [Some 0, Some 1, Some 2, Some 3, Some 4]"
    unfolding seekCommand_replay Let_def by (simp add: eval_defs upto_0_1)
  then have l1: "layers r1 = [Some 0, Some 1, Some 2, Some 3, Some 4]"
    unfolding r using s by simp
  have u: "map (\<lambda>k. ResetLayer (int k)) [0..<length (layers r1)]
      = [ResetLayer 0, ResetLayer 1, ResetLayer 2, ResetLayer 3, ResetLayer 4]"
    unfolding l1 by (simp add: upt_rec)
  have b: "clampCommandIndex (numCommands (playbackState r1)) 0 < currCommandIndex (playbackState r1)"
    unfolding n1 c1 by (simp add: clampCommandIndex_def)
  have t: "clampCommandIndex (numCommands (playbackState r1)) 0 = 0"
    unfolding n1 by (simp add: clampCommandIndex_def)
  note th = seekCommand_reset_and_replay [of 0 r1]
  have e: "seekCommand 0 r1 = map_option updateCompleteCallback (replay [0..0]
           (r1\<lparr>effects := effects r1 @
               [ResetLayer 0, ResetLayer 1, ResetLayer 2, ResetLayer 3, ResetLayer 4]\<rparr>))"
    using b th [THEN conjunct1] by (simp only: t u if_True)
  from th [THEN conjunct2, rule_format, OF ok1] obtain r2 where
    s2: "seekCommand 0 r1 = Some r2"
    and k: "\<forall>k. count_list (newEffects r1 r2) (ResetLayer k) =
                 (if clampCommandIndex (numCommands (playbackState r1)) 0
                       < currCommandIndex (playbackState r1)
                     \<and> 0 \<le> k \<and> k < int (length (layers r1))
                  then 1 else 0)"
    by blast
  have "count_list (newEffects r1 r2) (ResetLayer 0) = 1"
    and "count_list (newEffects r1 r2) (ResetLayer 4) = 1"
    and "count_list (newEffects r1 r2) (ResetLayer 5) = 0"
    using b k [rule_format, of 0] k [rule_format, of 4] k [rule_format, of 5]
    by (simp_all add: l1)
  moreover have "length (layers r1) = 5" unfolding l1 by simp
  ultimately show ?thesis using r s ok1 b e s2 by blast
qed

subsection \<open>Clamping of the target\<close>



subsection \<open>The completion callback\<close>

text \<open>
  C4. A seek in a state whose tool-state reference is valid returns, and the effects it
  adds end with one call of the completion callback and hold no other: the callback is
  called exactly once, whatever the target and however many commands are replayed.
\<close>

theorem seekCommand_callback_once:
  assumes "refOk r"
  shows "\<exists>r' es. seekCommand t0 r = Some r'
     \<and> effects r' = effects r @ es @ [UpdateCompleteCallback]
     \<and> UpdateCompleteCallback \<notin> set es
     \<and> count_list (newEffects r r') UpdateCompleteCallback = 1"
proof -
  define rs :: "'a Effect list" where
    "rs = (if clampCommandIndex (numCommands (playbackState r)) t0 < currCommandIndex (playbackState r)
           then map (\<lambda>k. ResetLayer (int k)) [0..<length (layers r)] else [])"
  from seekCommand_effects [OF assms, of t0] obtain r' es where
    s: "seekCommand t0 r = Some r'" and c: "list_all isCommandEffect es"
    and e: "effects r' = effects r @ rs @ es @ [UpdateCompleteCallback]"
    unfolding rs_def by blast
  have 1: "UpdateCompleteCallback \<notin> set rs"
    by (auto simp: rs_def)
  have "count_list es UpdateCompleteCallback = 0"
    using c by (rule count_list_command_effects) simp
  then have 2: "UpdateCompleteCallback \<notin> set es"
    by (simp add: count_list_0_iff)
  from 1 2 have n: "UpdateCompleteCallback \<notin> set (rs @ es)"
    by simp
  from e have "newEffects r r' = (rs @ es) @ [UpdateCompleteCallback]"
    by (simp add: newEffects_def)
  with n have "count_list (newEffects r r') UpdateCompleteCallback = 1"
    by (simp add: count_list_0_iff)
  with s e n show ?thesis
    by (intro exI [of _ r'] exI [of _ "rs @ es"]) simp
qed

theorem seekCommand_callback_once_witness:
  "\<exists>r r' es. sampleRenderer [drawCommand (1 / 2) (1 / 2) 1, layerCommand LAYERACTION_SET 3] = Some r
     \<and> refOk r
     \<and> seekCommand 1 r = Some r'
     \<and> effects r' = effects r @ es @ [UpdateCompleteCallback]
     \<and> UpdateCompleteCallback \<notin> set es
     \<and> count_list (newEffects r r') UpdateCompleteCallback = 1"
proof -
  from sampleRenderer_ok obtain r where
    r: "sampleRenderer [drawCommand (1 / 2) (1 / 2) 1, layerCommand LAYERACTION_SET 3] = Some r"
    and ok: "refOk r" by blast
  from seekCommand_callback_once [OF ok, of 1] r ok show ?thesis by blast
qed

subsection \<open>Moving the active layer\<close>




subsection \<open>Colour changes, flips and the user field\<close>

text \<open>
  C6. A \<open>TYPE_COLORCHANGE\<close> command, dispatched in a state whose tool-state reference
  points to the user state \<open>us\<close>. With a colour \<open>c\<close> the tool state gets the colour \<open>c\<close> and
  the backend one \<open>UpdateBrush\<close> call. Without a colour the backend gets
  \<open>Flip True False\<close> if \<open>flipX\<close> is set, otherwise \<open>Flip False True\<close> if \<open>flipY\<close> is set,
  otherwise nothing, and the field \<open>user\<close> of the tool state gets the user of the command.
  In both cases the two references \<open>toolStateRef\<close> and \<open>alphaBufferRef\<close> and the set of
  user states are what they were.
\<close>

theorem handleCommand_colorchange:
  assumes "type (getCommand (drw r) i) = TYPE_COLORCHANGE"
    and "userStates r (toolStateRef r) = Some us"
  shows "\<exists>r'. handleCommand i r = Some r'
     \<and> r' = (case Command.color (getCommand (drw r) i) of
               Some c \<Rightarrow>
                 r\<lparr>userStates := (userStates r)(toolStateRef r \<mapsto>
                        us\<lparr>toolState := (toolState us)\<lparr>ToolState.color := c\<rparr>\<rparr>),
                   effects := effects r @ [UpdateBrush],
                   playbackState := (playbackState r)\<lparr>currCommandIndex := i\<rparr>\<rparr>
             | None \<Rightarrow>
                 r\<lparr>userStates := (userStates r)(toolStateRef r \<mapsto>
                        us\<lparr>toolState := (toolState us)\<lparr>ToolState.user :=
                                              Command.user (getCommand (drw r) i)\<rparr>\<rparr>),
                   effects := effects r @
                     (if flipX (getCommand (drw r) i) then [Flip True False]
                      else if flipY (getCommand (drw r) i) then [Flip False True]
                      else []),
                   playbackState := (playbackState r)\<lparr>currCommandIndex := i\<rparr>\<rparr>)
     \<and> toolStateRef r' = toolStateRef r \<and> alphaBufferRef r' = alphaBufferRef r
     \<and> dom (userStates r') = dom (userStates r)"
proof (cases "Command.color (getCommand (drw r) i)")
  case None
  with assms show ?thesis
    by (simp add: handleCommand_def writeToolState_def flip_def emit_def
          setCurrCommandIndex_def dom_upd_same del: dom_fun_upd)
next
  case (Some c)
  with assms show ?thesis
    by (simp add: handleCommand_def writeToolState_def updateBrush_def emit_def
          setCurrCommandIndex_def dom_upd_same del: dom_fun_upd)
qed

theorem handleCommand_colorchange_witness:
  "\<exists>r us r'. sampleRenderer [flipCommand False True 7] = Some r
     \<and> type (getCommand (drw r) 0) = TYPE_COLORCHANGE
     \<and> userStates r (toolStateRef r) = Some us
     \<and> handleCommand 0 r = Some r'
     \<and> effects r' = effects r @ [Flip False True]
     \<and> map_option ToolState.user (readToolState r') = Some 7
     \<and> toolStateRef r' = toolStateRef r \<and> alphaBufferRef r' = alphaBufferRef r"
proof -
  obtain r where r: "sampleRenderer [flipCommand False True 7] = Some r"
    by (simp add: sampleRenderer_def newDrwRendererBase_eq)
  then have c: "getCommand (drw r) 0 = flipCommand False True 7"
    by (auto simp: sampleRenderer_def newDrwRendererBase_eq sampleDrw_def)
  then have t: "type (getCommand (drw r) 0) = TYPE_COLORCHANGE"
    by (simp add: flipCommand_def otherCommand_def)
  from r obtain us where us: "userStates r (toolStateRef r) = Some us"
    by (auto simp: sampleRenderer_def newDrwRendererBase_eq)
  from handleCommand_colorchange [OF t us] obtain r' where
    h: "handleCommand 0 r = Some r'"
    and e: "r' = (case Command.color (getCommand (drw r) 0) of
               Some c \<Rightarrow>
                 r\<lparr>userStates := (userStates r)(toolStateRef r \<mapsto>
                        us\<lparr>toolState := (toolState us)\<lparr>ToolState.color := c\<rparr>\<rparr>),
                   effects := effects r @ [UpdateBrush],
                   playbackState := (playbackState r)\<lparr>currCommandIndex := 0\<rparr>\<rparr>
             | None \<Rightarrow>
                 r\<lparr>userStates := (userStates r)(toolStateRef r \<mapsto>
                        us\<lparr>toolState := (toolState us)\<lparr>ToolState.user :=
                                              Command.user (getCommand (drw r) 0)\<rparr>\<rparr>),
                   effects := effects r @
                     (if flipX (getCommand (drw r) 0) then [Flip True False]
                      else if flipY (getCommand (drw r) 0) then [Flip False True]
                      else []),
                   playbackState := (playbackState r)\<lparr>currCommandIndex := 0\<rparr>\<rparr>)"
    and f: "toolStateRef r' = toolStateRef r" "alphaBufferRef r' = alphaBufferRef r"
    by blast
  from e have "effects r' = effects r @ [Flip False True]"
    and "map_option ToolState.user (readToolState r') = Some 7"
    unfolding c by (simp_all add: flipCommand_def otherCommand_def readToolState_def)
  with r t us h f show ?thesis by blast
qed

subsection \<open>Seeking twice to the same target\<close>

text \<open>
  C7. In a state whose tool-state reference is valid and whose cursor is in
  \<open>[-1, numCommands - 1]\<close>: after a seek to \<open>t0\<close>, a second seek to \<open>t0\<close> returns the state
  it started from with one call of the completion callback appended to the effects. It
  resets no layer and dispatches no command.
\<close>

theorem seekCommand_twice:
  assumes "refOk r" and "cursorOk r"
  shows "\<exists>r1. seekCommand t0 r = Some r1
     \<and> seekCommand t0 r1 = Some (r1\<lparr>effects := effects r1 @ [UpdateCompleteCallback]\<rparr>)"
proof -
  from seekCommand_Some [OF assms(1), of t0] obtain r1 where s: "seekCommand t0 r = Some r1" ..
  have n: "numCommands (playbackState r1) = numCommands (playbackState r)"
    using seekCommand_frame [OF s] by simp
  have c: "currCommandIndex (playbackState r1) = clampCommandIndex (numCommands (playbackState r1)) t0"
    using seekCommand_cursor [OF assms(2) s] n by simp
  have "seekCommand t0 r1 = map_option updateCompleteCallback
          (replay [currCommandIndex (playbackState r1) + 1..currCommandIndex (playbackState r1)] r1)"
    unfolding seekCommand_replay Let_def c [symmetric] by simp
  then have "seekCommand t0 r1 = Some (r1\<lparr>effects := effects r1 @ [UpdateCompleteCallback]\<rparr>)"
    by (simp add: updateCompleteCallback_def emit_def)
  with s show ?thesis by blast
qed

theorem seekCommand_twice_witness:
  "\<exists>r r1. sampleRenderer [drawCommand (1 / 2) (1 / 2) 1, layerCommand LAYERACTION_SET 3] = Some r
     \<and> refOk r \<and> cursorOk r
     \<and> seekCommand 1 r = Some r1
     \<and> seekCommand 1 r1 = Some (r1\<lparr>effects := effects r1 @ [UpdateCompleteCallback]\<rparr>)"
proof -
  from sampleRenderer_ok obtain r where
    r: "sampleRenderer [drawCommand (1 / 2) (1 / 2) 1, layerCommand LAYERACTION_SET 3] = Some r"
    and ok: "refOk r" "cursorOk r" by blast
  from seekCommand_twice [OF ok, of 1] r ok show ?thesis by blast
qed

subsection \<open>The playback loop\<close>

text \<open>
  C8. First, for every parser with 450 commands, on the renderer the constructor returns
  (its batch size is 200): \<open>play\<close> and three ticks leave the cursor at 199,
  399 and 449, and after the third tick \<open>isPlaying\<close> is false and no callback is
  scheduled. Second, in general, a tick that runs a scheduled playback loop, in a state
  whose tool-state reference is valid and whose cursor is in \<open>[-1, numCommands - 1]\<close>,
  seeks to the clamped \<open>currCommandIndex + commandsPerUpdate\<close>; afterwards \<open>isPlaying\<close>
  holds exactly if it held before and the cursor is below \<open>numCommands - 1\<close>, and the loop
  is scheduled again exactly in that case.
\<close>

theorem playback_three_ticks:
  "(DrwParser.numCommands d = 450 \<longrightarrow>
      (\<exists>r0 r1 r2 r3. newDrwRendererBase unset ts0 d = Some r0
         \<and> commandsPerUpdate (playbackState r0) = 200
         \<and> tick (play r0) = Some r1 \<and> tick r1 = Some r2 \<and> tick r2 = Some r3
         \<and> currCommandIndex (playbackState r1) = 199
         \<and> currCommandIndex (playbackState r2) = 399
         \<and> currCommandIndex (playbackState r3) = 449
         \<and> \<not> isPlaying (playbackState r3)
         \<and> scheduled r3 = 0))
   \<and> (refOk r \<and> cursorOk r \<and> scheduled r = Suc k \<longrightarrow>
      (\<exists>r'. tick r = Some r'
         \<and> currCommandIndex (playbackState r') =
               clampCommandIndex (numCommands (playbackState r))
                 (currCommandIndex (playbackState r) + commandsPerUpdate (playbackState r))
         \<and> isPlaying (playbackState r') =
               (isPlaying (playbackState r)
                \<and> currCommandIndex (playbackState r') < numCommands (playbackState r) - 1)
         \<and> scheduled r' = (if isPlaying (playbackState r') then Suc k else k)))"
proof (intro conjI impI)
  assume n: "DrwParser.numCommands d = 450"
  obtain r0 where r0: "newDrwRendererBase unset ts0 d = Some r0"
    by (simp add: newDrwRendererBase_eq)
  have ok0: "refOk r0" using r0 by (rule newDrwRendererBase_ok)
  have c0: "cursorOk r0" using n r0 by (intro newDrwRendererBase_cursorOk [of d]) simp_all
  have p0: "numCommands (playbackState r0) = 450" "commandsPerUpdate (playbackState r0) = 200"
    "currCommandIndex (playbackState r0) = - 1" "scheduled r0 = 0"
    using r0 n unfolding newDrwRendererBase_eq by auto
  from tick_step [of "play r0" 0] ok0 c0 p0 obtain r1 where
    r1: "tick (play r0) = Some r1" "refOk r1" "cursorOk r1"
      "numCommands (playbackState r1) = 450" "commandsPerUpdate (playbackState r1) = 200"
      "currCommandIndex (playbackState r1) = 199" "isPlaying (playbackState r1)"
      "scheduled r1 = Suc 0"
    by (auto simp: play_props clampCommandIndex_def)
  from tick_step [of r1 0] r1 obtain r2 where
    r2: "tick r1 = Some r2" "refOk r2" "cursorOk r2"
      "numCommands (playbackState r2) = 450" "commandsPerUpdate (playbackState r2) = 200"
      "currCommandIndex (playbackState r2) = 399" "isPlaying (playbackState r2)"
      "scheduled r2 = Suc 0"
    by (auto simp: clampCommandIndex_def)
  from tick_step [of r2 0] r2 obtain r3 where
    r3: "tick r2 = Some r3" 
      "currCommandIndex (playbackState r3) = 449" "\<not> isPlaying (playbackState r3)"
      "scheduled r3 = 0"
    by (auto simp: clampCommandIndex_def)
  from r0 p0(2) r1(1,6) r2(1,6) r3
  show "\<exists>r0 r1 r2 r3. newDrwRendererBase unset ts0 d = Some r0
         \<and> commandsPerUpdate (playbackState r0) = 200
         \<and> tick (play r0) = Some r1 \<and> tick r1 = Some r2 \<and> tick r2 = Some r3
         \<and> currCommandIndex (playbackState r1) = 199
         \<and> currCommandIndex (playbackState r2) = 399
         \<and> currCommandIndex (playbackState r3) = 449
         \<and> \<not> isPlaying (playbackState r3)
         \<and> scheduled r3 = 0"
    by blast
next
  assume a: "refOk r \<and> cursorOk r \<and> scheduled r = Suc k"
  from tick_step [of r k] a
  show "\<exists>r'. tick r = Some r'
         \<and> currCommandIndex (playbackState r') =
               clampCommandIndex (numCommands (playbackState r))
                 (currCommandIndex (playbackState r) + commandsPerUpdate (playbackState r))
         \<and> isPlaying (playbackState r') =
               (isPlaying (playbackState r)
                \<and> currCommandIndex (playbackState r') < numCommands (playbackState r) - 1)
         \<and> scheduled r' = (if isPlaying (playbackState r') then Suc k else k)"
    by blast
qed

theorem playback_three_ticks_witness:
  "\<exists>r0 r1 r2 r3.
     DrwParser.numCommands (sampleDrw (replicate 450 otherCommand)) = 450
     \<and> sampleRenderer (replicate 450 otherCommand) = Some r0
     \<and> refOk (play r0) \<and> cursorOk (play r0) \<and> scheduled (play r0) = Suc 0
     \<and> tick (play r0) = Some r1 \<and> tick r1 = Some r2 \<and> tick r2 = Some r3
     \<and> currCommandIndex (playbackState r1) = 199
     \<and> currCommandIndex (playbackState r2) = 399
     \<and> currCommandIndex (playbackState r3) = 449
     \<and> \<not> isPlaying (playbackState r3)"
proof -
  have n: "DrwParser.numCommands (sampleDrw (replicate 450 otherCommand)) = 450"
    by (simp add: sampleDrw_def)
  from playback_three_ticks [of "sampleDrw (replicate 450 otherCommand)" 0 sampleToolState]
    n obtain r0 r1 r2 r3 where
    r: "sampleRenderer (replicate 450 otherCommand) = Some r0"
      "tick (play r0) = Some r1" "tick r1 = Some r2" "tick r2 = Some r3"
      "currCommandIndex (playbackState r1) = 199"
      "currCommandIndex (playbackState r2) = 399"
      "currCommandIndex (playbackState r3) = 449"
      "\<not> isPlaying (playbackState r3)"
    unfolding sampleRenderer_def by blast
  from sampleRenderer_ok [of "replicate 450 otherCommand"] r(1)
  have "refOk (play r0)" "cursorOk (play r0)" "scheduled (play r0) = Suc 0"
    by (auto simp: play_props sampleRenderer_def newDrwRendererBase_eq)
  with n r show ?thesis by blast
qed

subsection \<open>Unknown command kinds\<close>

text \<open>
  C9. A command whose kind is none of \<open>TYPE_DRAW\<close>, \<open>TYPE_DRAWEND\<close>, \<open>TYPE_COLORCHANGE\<close>,
  \<open>TYPE_SIZECHANGE\<close> is dispatched without a throw, in every state (also one whose
  tool-state reference dangles), and the state after it is the state before it with the
  cursor set to the index of the command: tool states, layer stack and effects are untouched.
\<close>

theorem handleCommand_unknown_kind:
  assumes "type (getCommand (drw r) i) \<notin> {TYPE_DRAW, TYPE_DRAWEND, TYPE_COLORCHANGE, TYPE_SIZECHANGE}"
  shows "handleCommand i r =
           Some (r\<lparr>playbackState := (playbackState r)\<lparr>currCommandIndex := i\<rparr>\<rparr>)"
  using assms
  by (cases "type (getCommand (drw r) i)")
     (simp_all add: handleCommand_def setCurrCommandIndex_def)

theorem handleCommand_unknown_kind_witness:
  "\<exists>r. sampleRenderer [otherCommand] = Some r
     \<and> type (getCommand (drw r) 0) \<notin> {TYPE_DRAW, TYPE_DRAWEND, TYPE_COLORCHANGE, TYPE_SIZECHANGE}
     \<and> handleCommand 0 r =
           Some (r\<lparr>playbackState := (playbackState r)\<lparr>currCommandIndex := 0\<rparr>\<rparr>)"
proof -
  obtain r where r: "sampleRenderer [otherCommand] = Some r"
    by (simp add: sampleRenderer_def newDrwRendererBase_eq)
  then have t: "type (getCommand (drw r) 0) \<notin> {TYPE_DRAW, TYPE_DRAWEND, TYPE_COLORCHANGE, TYPE_SIZECHANGE}"
    by (auto simp: sampleRenderer_def newDrwRendererBase_eq sampleDrw_def otherCommand_def)
  from r t handleCommand_unknown_kind [OF t] show ?thesis by blast
qed

subsection \<open>Canvas size\<close>

text \<open>
  C10. \<open>setCanvasWidth w\<close>, in a state whose layer stack holds layers only (\<open>ls\<close>, no
  \<^verbatim>\<open>undefined\<close>): the width becomes \<open>w\<close>, the height \<open>w / aspectRatio\<close> of the header, and
  every layer of the stack receives one \<open>setSize\<close> call with these two values, in stack
  order. The layer stack, the playback state, the user states (tool states and pixel
  buffers, which keep the dimensions they were created with), the two references, the
  parser and the scheduled callbacks are unchanged.
\<close>

theorem setCanvasWidth_frame:
  assumes "layers r = map Some ls"
  shows "\<exists>r'. setCanvasWidth w r = Some r'
     \<and> width r' = w
     \<and> height r' = w / aspectRatio (header (drw r))
     \<and> newEffects r r' = map (\<lambda>l. LayerSetSize l w (w / aspectRatio (header (drw r)))) ls
     \<and> take (length (effects r)) (effects r') = effects r
     \<and> layers r' = layers r
     \<and> playbackState r' = playbackState r
     \<and> userStates r' = userStates r
     \<and> toolStateRef r' = toolStateRef r \<and> alphaBufferRef r' = alphaBufferRef r
     \<and> drw r' = drw r \<and> scheduled r' = scheduled r"
  using assms by (simp add: setCanvasWidth_def Let_def setSizeEach_defined newEffects_def)

theorem setCanvasWidth_frame_witness:
  "\<exists>r r'. sampleRenderer [] = Some r
     \<and> layers r = map Some [0, 1, 2, 3, 4]
     \<and> setCanvasWidth 800 r = Some r'
     \<and> width r' = 800 \<and> height r' = 600
     \<and> newEffects r r' = [LayerSetSize 0 800 600, LayerSetSize 1 800 600,
           LayerSetSize 2 800 600, LayerSetSize 3 800 600, LayerSetSize 4 800 600]
     \<and> map_option alphaBuffer (userStates r' 0) = Some \<lparr>bufferWidth = 0, bufferHeight = 0\<rparr>"
proof -
  obtain r where r: "sampleRenderer [] = Some r"
    by (simp add: sampleRenderer_def newDrwRendererBase_eq)
  then have l: "layers r = map Some [0, 1, 2, 3, 4]"
    and a: "aspectRatio (header (drw r)) = 4 / 3"
    and u: "map_option alphaBuffer (userStates r 0) = Some \<lparr>bufferWidth = 0, bufferHeight = 0\<rparr>"
    by (auto simp: sampleRenderer_def newDrwRendererBase_eq sampleDrw_def newUserState_def)
  from setCanvasWidth_frame [OF l, of 800] obtain r' where
    "setCanvasWidth 800 r = Some r'" "width r' = 800"
    "height r' = 800 / aspectRatio (header (drw r))"
    "newEffects r r' = map (\<lambda>l. LayerSetSize l 800 (800 / aspectRatio (header (drw r)))) [0, 1, 2, 3, 4]"
    "userStates r' = userStates r"
    by blast
  with r l u show ?thesis
    unfolding a by (intro exI [of _ r] exI [of _ r']) simp
qed

end
